theory Spec2Isabelle
  imports Main "HOL-Library.Word" "HOL-Library.AList"
begin

section \<open>Values\<close>

text \<open>
  The JavaScript values that credentials and keys are made of: JSON data whose leaves
  may also be byte sequences (a Node \<open>Buffer\<close>).  An object is the list of its
  properties in their order; its keys are distinct.  \<open>undefined\<close>, functions and
  non-integral numbers do not occur in this data and have no constructor.
\<close>

type_synonym byte = "8 word"

datatype jsval =
    VNull
  | VBool bool
  | VNum int
  | VStr string
  | VBuf "byte list"
  | VArr "jsval list"
  | VObj "(string \<times> jsval) list"

type_synonym userId = string

text \<open>
  Errors are values.  \<open>TypeError\<close> is the one the runtime throws (a property of
  \<open>undefined\<close> or \<open>null\<close>, \<open>Buffer.from\<close> of a number); \<open>Error m\<close> is a plain
  \<open>new Error(m)\<close> with the message \<open>m\<close>, which is all the code itself throws;
  \<open>LibraryError\<close> is whatever a call on a socket throws.  \<open>NotModelled\<close> marks the
  arguments of \<open>Buffer.from\<close> whose conversion is not described here.
\<close>

datatype error = TypeError | NotModelled | Error string | LibraryError

fun sequence_sum :: "('e + 'a) list \<Rightarrow> 'e + 'a list" where
  "sequence_sum [] = Inr []"
| "sequence_sum (x # xs) =
     (case x of
        Inl e \<Rightarrow> Inl e
      | Inr y \<Rightarrow> (case sequence_sum xs of Inl e \<Rightarrow> Inl e | Inr ys \<Rightarrow> Inr (y # ys)))"

text \<open>\<open>value?.k\<close>: the property of an object, \<open>undefined\<close> (\<open>None\<close>) on anything else.\<close>

fun prop_of :: "jsval \<Rightarrow> string \<Rightarrow> jsval option" where
  "prop_of (VObj kvs) k = map_of kvs k"
| "prop_of _ k = None"

fun truthy :: "jsval \<Rightarrow> bool" where
  "truthy VNull = False"
| "truthy (VBool b) = b"
| "truthy (VNum n) = (n \<noteq> 0)"
| "truthy (VStr s) = (s \<noteq> [])"
| "truthy _ = True"

text \<open>\<open>Object.keys(v).length\<close>: own enumerable properties; indices for strings and arrays.\<close>

fun object_keys_length :: "jsval \<Rightarrow> nat" where
  "object_keys_length (VObj kvs) = length kvs"
| "object_keys_length (VArr xs) = length xs"
| "object_keys_length (VStr s) = length s"
| "object_keys_length (VBuf bs) = length bs"
| "object_keys_length _ = 0"

section \<open>Node's Buffer: base64 and \<open>Buffer.from\<close>\<close>

text \<open>
  \<open>buf.toString('base64')\<close> is RFC 4648 base64 with padding.  \<open>Buffer.from(s, 'base64')\<close>
  is Node's lenient decoder: it reads up to the first \<open>=\<close>, skips characters outside
  the alphabet and accepts the URL-safe \<open>-\<close> and \<open>_\<close>.  Sextets are natural numbers below 64.
\<close>

definition b64chars :: string where
  "b64chars = ''ABCDEFGHIJKLMNOPQRSTUVWXYZabcdefghijklmnopqrstuvwxyz0123456789+/''"

definition b64char :: "nat \<Rightarrow> char" where
  "b64char i = b64chars ! i"

fun index_of :: "'a \<Rightarrow> 'a list \<Rightarrow> nat option" where
  "index_of x [] = None"
| "index_of x (y # ys) = (if x = y then Some 0 else map_option Suc (index_of x ys))"

definition b64index :: "char \<Rightarrow> nat option" where
  "b64index c =
     (if c = CHR ''-'' then Some 62 else if c = CHR ''_'' then Some 63
      else index_of c b64chars)"

fun toBase64 :: "byte list \<Rightarrow> string" where
  "toBase64 [] = []"
| "toBase64 [a] =
     [b64char (unat a div 4), b64char ((unat a mod 4) * 16), CHR ''='', CHR ''='']"
| "toBase64 [a, b] =
     [b64char (unat a div 4), b64char ((unat a mod 4) * 16 + unat b div 16),
      b64char ((unat b mod 16) * 4), CHR ''='']"
| "toBase64 (a # b # c # bs) =
     [b64char (unat a div 4), b64char ((unat a mod 4) * 16 + unat b div 16),
      b64char ((unat b mod 16) * 4 + unat c div 64), b64char (unat c mod 64)]
     @ toBase64 bs"

fun fromSextets :: "nat list \<Rightarrow> byte list" where
  "fromSextets (i # j # k # l # rest) =
     [of_nat (i * 4 + j div 16), of_nat ((j mod 16) * 16 + k div 4), of_nat ((k mod 4) * 64 + l)]
     @ fromSextets rest"
| "fromSextets [i, j, k] = [of_nat (i * 4 + j div 16), of_nat ((j mod 16) * 16 + k div 4)]"
| "fromSextets [i, j] = [of_nat (i * 4 + j div 16)]"
| "fromSextets _ = []"

definition fromBase64 :: "string \<Rightarrow> byte list" where
  "fromBase64 s = fromSextets (List.map_filter b64index (takeWhile (\<lambda>c. c \<noteq> CHR ''='') s))"

fun is_num :: "jsval \<Rightarrow> bool" where
  "is_num (VNum n) = True"
| "is_num _ = False"

fun num_byte :: "jsval \<Rightarrow> byte" where
  "num_byte (VNum n) = word_of_int n"
| "num_byte _ = 0"

text \<open>
  \<open>Buffer.from(x)\<close>: a copy of a buffer, the bytes of a string (a \<open>string\<close> is its
  UTF-8 bytes already), the elements of an array of numbers modulo 256, the array of
  \<open>{type: 'Buffer', data: [...]}\<close>.  Node throws a \<open>TypeError\<close> for \<open>null\<close>, a
  boolean, a number and any other plain object.  Arrays with elements that are not
  numbers and array-like objects (a \<open>length\<close> property) are \<open>NotModelled\<close>.
\<close>

fun bufferFrom :: "jsval \<Rightarrow> error + byte list" where
  "bufferFrom (VBuf bs) = Inr bs"
| "bufferFrom (VStr s) = Inr (map (\<lambda>c. of_nat (of_char c)) s)"
| "bufferFrom (VArr xs) = (if list_all is_num xs then Inr (map num_byte xs) else Inl NotModelled)"
| "bufferFrom (VObj kvs) =
     (if map_of kvs ''length'' \<noteq> None then Inl NotModelled
      else if map_of kvs ''type'' = Some (VStr ''Buffer'') then
        (case map_of kvs ''data'' of
           Some (VArr xs) \<Rightarrow>
             (if list_all is_num xs then Inr (map num_byte xs) else Inl NotModelled)
         | _ \<Rightarrow> Inl TypeError)
      else Inl TypeError)"
| "bufferFrom _ = Inl TypeError"

text \<open>\<open>Buffer.from(x, 'base64')\<close>: the encoding matters for a string only.\<close>

fun bufferFromBase64 :: "jsval \<Rightarrow> error + byte list" where
  "bufferFromBase64 (VStr s) = Inr (fromBase64 s)"
| "bufferFromBase64 v = bufferFrom v"

section \<open>The codec of dbAuthState.js\<close>

text \<open>\<open>{ type: 'Buffer', data: d }\<close>\<close>

definition tagged :: "jsval \<Rightarrow> jsval" where
  "tagged d = VObj [(''type'', VStr ''Buffer''), (''data'', d)]"

text \<open>
  \<open>Buffer.prototype.toJSON\<close>, which \<open>JSON.stringify\<close> applies to a value before the
  replacer sees it.
\<close>

fun toJSON :: "jsval \<Rightarrow> jsval" where
  "toJSON (VBuf bs) = tagged (VArr (map (\<lambda>b. VNum (uint b)) bs))"
| "toJSON v = v"

fun isBuffer :: "jsval \<Rightarrow> bool" where
  "isBuffer (VBuf bs) = True"
| "isBuffer _ = False"

text \<open>
  \<open>BufferJSON.replacer\<close>:
  \<^verbatim>\<open>if (Buffer.isBuffer(value) || value instanceof Uint8Array || value?.type === 'Buffer')
    return { type: 'Buffer', data: Buffer.from(value?.data || value).toString('base64') };
  return value;\<close>
\<close>

definition replacer :: "jsval \<Rightarrow> error + jsval" where
  "replacer v =
     (if isBuffer v \<or> prop_of v ''type'' = Some (VStr ''Buffer'') then
        (case bufferFrom (case prop_of v ''data'' of
                            Some d \<Rightarrow> if truthy d then d else v
                          | None \<Rightarrow> v) of
           Inl e \<Rightarrow> Inl e
         | Inr bs \<Rightarrow> Inr (tagged (VStr (toBase64 bs))))
      else Inr v)"

text \<open>
  \<open>BufferJSON.reviver\<close>:
  \<^verbatim>\<open>if (typeof value === 'object' && value !== null && value.type === 'Buffer' && value.data)
    return Buffer.from(value.data, 'base64');
  return value;\<close>
\<close>

definition reviver :: "jsval \<Rightarrow> error + jsval" where
  "reviver v =
     (case prop_of v ''data'' of
        Some d \<Rightarrow>
          if prop_of v ''type'' = Some (VStr ''Buffer'') \<and> truthy d
          then map_sum id VBuf (bufferFromBase64 d)
          else Inr v
      | None \<Rightarrow> Inr v)"

text \<open>
  \<open>serializeData(data) = JSON.parse(JSON.stringify(data, BufferJSON.replacer))\<close>.
  \<open>JSON.stringify\<close> passes every value, after \<open>toJSON\<close>, to the replacer and then writes
  what the replacer returned, going into the elements of an array and the properties
  of an object.  What the replacer returns for a tagged value has strings below it
  only; on an array and on an object without the tag the replacer is the identity.
\<close>

fun serializeData :: "jsval \<Rightarrow> error + jsval" where
  "serializeData (VArr xs) = map_sum id VArr (sequence_sum (map serializeData xs))"
| "serializeData (VObj kvs) =
     (if map_of kvs ''type'' = Some (VStr ''Buffer'') then replacer (VObj kvs)
      else map_sum id VObj
             (sequence_sum (map (\<lambda>(k, v). map_sum id (Pair k) (serializeData v)) kvs)))"
| "serializeData v = replacer (toJSON v)"

text \<open>
  \<open>deserializeData(data) = JSON.parse(JSON.stringify(data), BufferJSON.reviver)\<close>.
  \<open>JSON.parse\<close> calls the reviver bottom-up: on the elements and properties first,
  then on the array or object that holds them.  A \<open>Buffer\<close> in \<open>data\<close> is written by
  \<open>JSON.stringify\<close> in its \<open>toJSON\<close> form, whose parts the reviver leaves as they are.
\<close>

fun deserializeData :: "jsval \<Rightarrow> error + jsval" where
  "deserializeData (VArr xs) = map_sum id VArr (sequence_sum (map deserializeData xs))"
| "deserializeData (VObj kvs) =
     (case sequence_sum (map (\<lambda>(k, v). map_sum id (Pair k) (deserializeData v)) kvs) of
        Inl e \<Rightarrow> Inl e
      | Inr kvs' \<Rightarrow> reviver (VObj kvs'))"
| "deserializeData (VBuf bs) = reviver (toJSON (VBuf bs))"
| "deserializeData v = Inr v"

text \<open>The round trip \<open>decode(encode(x))\<close>.\<close>

definition roundtrip :: "jsval \<Rightarrow> error + jsval" where
  "roundtrip x = (case serializeData x of Inl e \<Rightarrow> Inl e | Inr y \<Rightarrow> deserializeData y)"

section \<open>useDBAuthState (dbAuthState.js)\<close>

text \<open>
  The closure variables \<open>keysCache\<close>, \<open>credsCache\<close>, \<open>pendingKeyUpdates\<close> and
  \<open>keyUpdateTimeout\<close>, together with what the closure does to the outside: the timers
  it has set and not cleared (\<open>live_timers\<close>, each with its id and delay in
  milliseconds) and the \<open>PATCH .../keys\<close> requests it has issued (\<open>patches\<close>).
  \<open>keysCache\<close> and \<open>pendingKeyUpdates\<close> are JavaScript objects: an assignment to a
  key that is present keeps its place, a new key goes last.  A pending \<open>null\<close> is \<open>None\<close>.
\<close>

datatype creds = InitAuthCreds | Loaded jsval

record patch =
  set_keys :: "(string \<times> jsval) list"
  delete_keys :: "string list"

record authstate =
  keysCache :: "(string \<times> jsval) list"
  credsCache :: "creds option"
  pendingKeyUpdates :: "(string \<times> jsval option) list"
  keyUpdateTimeout :: "nat option"
  live_timers :: "(nat \<times> nat) list"
  next_timer :: nat
  patches :: "patch list"

text \<open>The body of the response to \<open>GET .../auth/{sessionId}\<close>.\<close>

record auth_response =
  creds_field :: "jsval option"
  keys_field :: "(string \<times> jsval) list option"
  has_credentials :: bool

text \<open>
  \<open>loadAuth\<close>; \<open>None\<close> is a request that failed (a 404 or any other error), which the
  \<open>catch\<close> turns into \<open>false\<close>, as it does with an error thrown by \<open>deserializeData\<close>.
\<close>

definition loadAuth :: "auth_response option \<Rightarrow> authstate \<Rightarrow> bool \<times> authstate" where
  "loadAuth response a =
     (case response of
        None \<Rightarrow> (False, a)
      | Some r \<Rightarrow>
          (case creds_field r of
             None \<Rightarrow> (False, a)
           | Some c \<Rightarrow>
               if has_credentials r \<and> truthy c \<and> object_keys_length c > 0 then
                 (case deserializeData c of
                    Inl e \<Rightarrow> (False, a)
                  | Inr d \<Rightarrow>
                      (True, a\<lparr>credsCache := Some (Loaded d),
                               keysCache := (case keys_field r of None \<Rightarrow> [] | Some ks \<Rightarrow> ks)\<rparr>))
               else (False, a)))"

text \<open>
  \<open>scheduleKeySync\<close>: \<open>clearTimeout\<close> of the timer set before (without effect when that
  one has fired), then \<open>setTimeout(..., 500)\<close>.
\<close>

definition scheduleKeySync :: "authstate \<Rightarrow> authstate" where
  "scheduleKeySync a =
     (let cleared = (case keyUpdateTimeout a of
                       None \<Rightarrow> live_timers a
                     | Some t \<Rightarrow> filter (\<lambda>(i, d). i \<noteq> t) (live_timers a));
          t' = next_timer a
      in a\<lparr>live_timers := cleared @ [(t', 500)],
           keyUpdateTimeout := Some t',
           next_timer := Suc t'\<rparr>)"

text \<open>
  \<open>state.keys.set(data)\<close>: the loop over the ids of one type, the loop over the types,
  and the call of \<open>scheduleKeySync\<close> after them.  An error thrown by \<open>serializeData\<close>
  leaves the loops with what has been assigned so far.
\<close>

fun set_ids :: "string \<Rightarrow> (string \<times> jsval option) list \<Rightarrow> authstate \<Rightarrow> error option \<times> authstate" where
  "set_ids ty [] a = (None, a)"
| "set_ids ty ((i, v) # rest) a =
     (let key = ty @ '':'' @ i in
      case v of
        None \<Rightarrow>
          set_ids ty rest
            (a\<lparr>keysCache := AList.delete key (keysCache a),
               pendingKeyUpdates := AList.update key None (pendingKeyUpdates a)\<rparr>)
      | Some x \<Rightarrow>
          (case serializeData x of
             Inl e \<Rightarrow> (Some e, a)
           | Inr serialized \<Rightarrow>
               set_ids ty rest
                 (a\<lparr>keysCache := AList.update key serialized (keysCache a),
                    pendingKeyUpdates := AList.update key (Some serialized) (pendingKeyUpdates a)\<rparr>)))"

fun set_types :: "(string \<times> (string \<times> jsval option) list) list \<Rightarrow> authstate \<Rightarrow> error option \<times> authstate" where
  "set_types [] a = (None, a)"
| "set_types ((ty, entries) # rest) a =
     (case set_ids ty entries a of
        (Some e, a') \<Rightarrow> (Some e, a')
      | (None, a') \<Rightarrow> set_types rest a')"

definition keys_set :: "(string \<times> (string \<times> jsval option) list) list \<Rightarrow> authstate \<Rightarrow> error option \<times> authstate" where
  "keys_set data a =
     (case set_types data a of
        (Some e, a') \<Rightarrow> (Some e, a')
      | (None, a') \<Rightarrow> (None, scheduleKeySync a'))"

text \<open>
  The timer's callback up to its \<open>await axios.patch(...)\<close>: the copy of
  \<open>pendingKeyUpdates\<close>, its reset, the early return on an empty copy, the split into
  \<open>set_keys\<close> and \<open>delete_keys\<close> and the request.  The result is the copy \<open>updates\<close>,
  which the \<open>catch\<close> needs, or \<open>None\<close> after the early return.
\<close>

definition flush_begin :: "authstate \<Rightarrow> (string \<times> jsval option) list option \<times> authstate" where
  "flush_begin a =
     (let updates = pendingKeyUpdates a;
          a1 = a\<lparr>pendingKeyUpdates := []\<rparr>
      in if updates = [] then (None, a1)
         else (Some updates,
               a1\<lparr>patches := patches a1 @
                   [\<lparr>set_keys = List.map_filter (\<lambda>(k, v). map_option (Pair k) v) updates,
                     delete_keys = map fst (filter (\<lambda>(k, v). v = None) updates)\<rparr>]\<rparr>))"

text \<open>\<open>{ ...xs, ...ys }\<close>\<close>

definition spread :: "('k \<times> 'v) list \<Rightarrow> ('k \<times> 'v) list \<Rightarrow> ('k \<times> 'v) list" where
  "spread xs ys = fold (\<lambda>(k, v). AList.update k v) ys xs"

text \<open>
  The \<open>catch\<close> of the callback, run when the request has failed:
  \<open>pendingKeyUpdates = { ...updates, ...pendingKeyUpdates }\<close>.  When the request succeeds
  the callback changes nothing more.
\<close>

definition flush_failed :: "(string \<times> jsval option) list \<Rightarrow> authstate \<Rightarrow> authstate" where
  "flush_failed updates a = a\<lparr>pendingKeyUpdates := spread updates (pendingKeyUpdates a)\<rparr>"

text \<open>A live timer fires: it is no longer pending, and its callback starts.\<close>

definition fire_timer :: "nat \<Rightarrow> authstate \<Rightarrow> (string \<times> jsval option) list option \<times> authstate" where
  "fire_timer t a =
     (if t \<in> fst ` set (live_timers a)
      then flush_begin (a\<lparr>live_timers := filter (\<lambda>(i, d). i \<noteq> t) (live_timers a)\<rparr>)
      else (None, a))"

text \<open>
  \<open>useDBAuthState\<close> up to its \<open>return\<close>: the load, and \<open>initAuthCreds()\<close> when nothing
  was loaded.  The first component is \<open>state.creds\<close>.
\<close>

definition new_authstate :: authstate where
  "new_authstate =
     \<lparr>keysCache = [], credsCache = None, pendingKeyUpdates = [], keyUpdateTimeout = None,
      live_timers = [], next_timer = 0, patches = []\<rparr>"

definition useDBAuthState :: "auth_response option \<Rightarrow> creds \<times> authstate" where
  "useDBAuthState response =
     (case loadAuth response new_authstate of
        (hasExisting, a) \<Rightarrow>
          (case credsCache a of
             Some c \<Rightarrow> if hasExisting then (c, a)
                       else (InitAuthCreds, a\<lparr>credsCache := Some InitAuthCreds\<rparr>)
           | None \<Rightarrow> (InitAuthCreds, a\<lparr>credsCache := Some InitAuthCreds\<rparr>)))"

section \<open>Session manager (sessions.js)\<close>

text \<open>
  The registry \<open>sessions\<close> is a \<open>Map\<close> from user id to a mutable session object
  \<open>{ socket, qr, qrBase64, status, phoneNumber }\<close>.  A socket is an object of the
  messaging library; it is named here by a handle, a number given out by
  \<open>makeWASocket\<close>.  \<open>null\<close> is \<open>None\<close>.
\<close>

type_synonym handle = nat

datatype status = Connecting | Qr | Connected | Reconnecting | Disconnected

record session =
  socket :: "handle option"
  qr :: "string option"
  qrBase64 :: "string option"
  status :: status
  phoneNumber :: "string option"

text \<open>
  The \<open>auth\<close> given to \<open>makeWASocket\<close>: the state of \<open>useDBAuthState\<close> with its
  \<open>creds\<close>, or the library's \<open>useMultiFileAuthState\<close> of the session directory.
\<close>

datatype auth = DBAuthState creds | MultiFileAuthState userId

text \<open>
  What the code does to the outside, in the order it does it: calls on the library's
  socket objects and requests to the backend.  A call is recorded when it is made,
  whether or not it then throws.
\<close>

datatype event =
    MakeWASocket handle userId auth
  | SocketEnd handle
  | SocketLogout handle
  | SocketSendMessage handle string string
  | NotifyBackend userId string "string option"
  | DeleteAuth userId

text \<open>
  \<open>timers\<close> holds the pending \<open>setTimeout(() => startSession(userId), delay)\<close> calls as
  pairs of delay (milliseconds) and user id.  \<open>sessionsDirExists\<close> and \<open>sessionDirs\<close> are
  the part of the file system the code looks at: \<open>config.sessionsDir\<close> and the session
  directories below it.  \<open>store\<close> is the backend's credential store, described with
  \<open>store_load\<close> below.  \<open>open_sockets\<close> are the sockets that the library has made and
  not closed, each with the user id that the handler registered on it by
  \<open>socket.ev.on('connection.update', ...)\<close> was made for.
\<close>

record world =
  sessions :: "userId \<Rightarrow> session option"
  store :: "userId \<Rightarrow> (jsval \<times> (string \<times> jsval) list) option"
  sessionsDirExists :: bool
  sessionDirs :: "userId set"
  next_handle :: handle
  open_sockets :: "(handle \<times> userId) list"
  timers :: "(nat \<times> userId) list"
  trace :: "event list"

text \<open>
  Modelled from the spec: the backend's credential store behind \<open>GET /auth/{id}\<close>
  (load \<open>{creds, keys, has_credentials}\<close>) and \<open>DELETE /auth/{id}\<close> (purge all durable
  state for a session).  The backend is not among the sources.  The store maps the id
  of a session that has credentials to its credential blob and its keys; what the load
  of an id answers is \<open>store_load\<close>, and a purge removes the id from the store.
\<close>

definition store_load :: "(userId \<Rightarrow> (jsval \<times> (string \<times> jsval) list) option) \<Rightarrow> userId \<Rightarrow> auth_response" where
  "store_load st i =
     (case st i of
        None \<Rightarrow> \<lparr>creds_field = None, keys_field = None, has_credentials = False\<rparr>
      | Some (c, ks) \<Rightarrow> \<lparr>creds_field = Some c, keys_field = Some ks, has_credentials = True\<rparr>)"

text \<open>
  Everything the code cannot decide by itself is a field of \<open>env\<close>: the configuration
  flag \<open>config.useDBAuth\<close>, the library's codes \<open>DisconnectReason.loggedOut\<close> and
  \<open>DisconnectReason.forbidden\<close>, whether a call on a socket throws, whether a request
  to the backend succeeds, the library's QR renderer \<open>QRCode.toDataURL\<close> (\<open>None\<close> when
  it throws) and \<open>socket.user?.id\<close>.
\<close>

record env =
  useDBAuth :: bool
  loggedOut :: int
  forbidden :: int
  endThrows :: bool
  logoutThrows :: bool
  sendThrows :: bool
  deleteOk :: bool
  loadOk :: bool
  toDataURL :: "string \<Rightarrow> string option"
  socketUserId :: "string option"

datatype start_result =
    StartConnected "string option"
  | StartQr "string option"
  | StartConnecting string

text \<open>\<open>{ success: true, message }\<close>\<close>

datatype op_result = Success "string option"

subsection \<open>The handler of connection.update\<close>

datatype conn = ConnClose | ConnOpen | ConnConnecting

text \<open>
  The parts of an update the handler reads: \<open>connection\<close>,
  \<open>lastDisconnect?.error?.output?.statusCode\<close>, \<open>lastDisconnect?.error?.message\<close> and
  \<open>qr\<close>; \<open>undefined\<close> is \<open>None\<close>.
\<close>

record update =
  connection :: "conn option"
  statusCode :: "int option"
  errorMessage :: "string option"
  qrCode :: "string option"

text \<open>
  \<open>if (qr) { try { ... } catch (err) { ... } }\<close>: the \<open>catch\<close> takes an error of the
  renderer and also the \<open>TypeError\<close> of assigning to a session that is not registered.
\<close>

definition onQr :: "env \<Rightarrow> userId \<Rightarrow> update \<Rightarrow> world \<Rightarrow> world" where
  "onQr e userId u w =
     (case qrCode u of
        None \<Rightarrow> w
      | Some q \<Rightarrow>
          if q = [] then w
          else (case toDataURL e q of
                  None \<Rightarrow> w
                | Some img \<Rightarrow>
                    (case sessions w userId of
                       None \<Rightarrow> w
                     | Some s \<Rightarrow>
                         w\<lparr>sessions := (sessions w)(userId \<mapsto>
                              s\<lparr>qr := Some q, qrBase64 := Some img, status := Qr\<rparr>)\<rparr>)))"

text \<open>\<open>lastDisconnect?.error?.message || 'Unknown error'\<close>\<close>

definition close_reason :: "update \<Rightarrow> string" where
  "close_reason u =
     (case errorMessage u of
        None \<Rightarrow> ''Unknown error''
      | Some m \<Rightarrow> if m = [] then ''Unknown error'' else m)"

definition shouldReconnect :: "env \<Rightarrow> update \<Rightarrow> bool" where
  "shouldReconnect e u =
     (statusCode u \<noteq> Some (loggedOut e) \<and> statusCode u \<noteq> Some (forbidden e)
      \<and> statusCode u \<noteq> Some 405)"

text \<open>\<open>if (connection === 'close') { ... }\<close>\<close>

definition onClose :: "env \<Rightarrow> userId \<Rightarrow> update \<Rightarrow> world \<Rightarrow> error + world" where
  "onClose e userId u w =
     (case sessions w userId of
        None \<Rightarrow> Inl TypeError
      | Some s \<Rightarrow>
          if shouldReconnect e u then
            Inr (w\<lparr>sessions := (sessions w)(userId \<mapsto> s\<lparr>status := Reconnecting\<rparr>),
                   timers := timers w @ [(5000, userId)]\<rparr>)
          else
            Inr (w\<lparr>sessions := (sessions w)(userId \<mapsto>
                        s\<lparr>status := Disconnected, socket := None, phoneNumber := None\<rparr>),
                   trace := trace w @ [NotifyBackend userId ''disconnected'' (Some (close_reason u))]\<rparr>))"

text \<open>\<open>socket.user?.id?.split(':')[0] || null\<close>\<close>

definition phone_of :: "string option \<Rightarrow> string option" where
  "phone_of i =
     (case i of
        None \<Rightarrow> None
      | Some s \<Rightarrow>
          (let p = takeWhile (\<lambda>c. c \<noteq> CHR '':'') s in if p = [] then None else Some p))"

text \<open>\<open>if (connection === 'open') { ... }\<close>\<close>

definition onOpen :: "env \<Rightarrow> userId \<Rightarrow> world \<Rightarrow> error + world" where
  "onOpen e userId w =
     (case sessions w userId of
        None \<Rightarrow> Inl TypeError
      | Some s \<Rightarrow>
          (let phone = phone_of (socketUserId e) in
           Inr (w\<lparr>sessions := (sessions w)(userId \<mapsto>
                       s\<lparr>status := Connected, phoneNumber := phone, qr := None, qrBase64 := None\<rparr>),
                  trace := trace w @ [NotifyBackend userId ''connected'' phone]\<rparr>)))"

text \<open>
  The handler that \<open>startSession(userId)\<close> registers, on one update.  \<open>Inl\<close> is the
  error it ends with.
\<close>

definition onConnectionUpdate :: "env \<Rightarrow> userId \<Rightarrow> update \<Rightarrow> world \<Rightarrow> error + world" where
  "onConnectionUpdate e userId u w =
     (let w1 = onQr e userId u w in
      case connection u of
        Some ConnClose \<Rightarrow> onClose e userId u w1
      | Some ConnOpen \<Rightarrow> onOpen e userId w1
      | _ \<Rightarrow> Inr w1)"

subsection \<open>The library's socket: close, end and logout\<close>

text \<open>The update of a close with the status code and the message of its error.\<close>

definition close_update :: "int option \<Rightarrow> string option \<Rightarrow> update" where
  "close_update c m =
     \<lparr>connection = Some ConnClose, statusCode = c, errorMessage = m, qrCode = None\<rparr>"

text \<open>
  The socket is the library's (\<open>makeWASocket\<close> of \<open>@whiskeysockets/baileys\<close>), and its
  code is not among the sources; the three definitions of this subsection describe the
  part of it that decides what the calls \<open>socket.end()\<close> and \<open>socket.logout()\<close> of
  sessions.js do to the session manager.

  The library closes a socket through its \<open>end(error)\<close>, whether the connection was
  lost, the server refused it, or \<open>end\<close> or \<open>logout\<close> was called from outside: on a
  socket that is closed already \<open>end(error)\<close> does nothing; otherwise it marks the
  socket closed and emits \<open>connection.update\<close> with
  \<open>{ connection: 'close', lastDisconnect: { error, date } }\<close> before it removes the
  listeners.  The emission calls the handler that \<open>startSession\<close> registered, and
  with no \<open>qr\<close> in the update the handler runs to its end within that call, since it
  meets no \<open>await\<close>.  The handler is an \<open>async\<close> function: an error it throws rejects the
  promise it returns and does not reach the caller of \<open>end\<close>.
\<close>

definition library_end :: "env \<Rightarrow> handle \<Rightarrow> int option \<Rightarrow> string option \<Rightarrow> world \<Rightarrow> world" where
  "library_end e h c m w =
     (case map_of (open_sockets w) h of
        None \<Rightarrow> w
      | Some userId \<Rightarrow>
          (let w1 = w\<lparr>open_sockets := filter (\<lambda>(h', i). h' \<noteq> h) (open_sockets w)\<rparr> in
           case onConnectionUpdate e userId (close_update c m) w1 of
             Inl err \<Rightarrow> w1
           | Inr w2 \<Rightarrow> w2))"

text \<open>
  \<open>socket.end()\<close> as sessions.js calls it, with no argument: the error of the close is
  \<open>undefined\<close>, so the update has neither a status code nor a message.  \<open>Some\<close> is the
  error of a call that throws.
\<close>

definition socket_end :: "env \<Rightarrow> handle \<Rightarrow> world \<Rightarrow> error option \<times> world" where
  "socket_end e h w =
     (let w1 = w\<lparr>trace := trace w @ [SocketEnd h]\<rparr>
      in if endThrows e then (Some LibraryError, w1)
         else (None, library_end e h None None w1))"

text \<open>
  \<open>socket.logout()\<close>: the library sends the request that removes the companion device
  and then ends the socket with
  \<open>new Boom('Intentional Logout', { statusCode: DisconnectReason.loggedOut })\<close>.  A
  request that throws leaves the socket as it is.
\<close>

definition socket_logout :: "env \<Rightarrow> handle \<Rightarrow> world \<Rightarrow> error option \<times> world" where
  "socket_logout e h w =
     (let w1 = w\<lparr>trace := trace w @ [SocketLogout h]\<rparr>
      in if logoutThrows e then (Some LibraryError, w1)
         else (None, library_end e h (Some (loggedOut e)) (Some ''Intentional Logout'') w1))"

subsection \<open>startSession\<close>

definition ensureSessionsDir :: "world \<Rightarrow> world" where
  "ensureSessionsDir w = (if sessionsDirExists w then w else w\<lparr>sessionsDirExists := True\<rparr>)"

definition truthy_str :: "string option \<Rightarrow> bool" where
  "truthy_str s = (case s of None \<Rightarrow> False | Some t \<Rightarrow> t \<noteq> [])"

text \<open>
  The part of \<open>startSession\<close> before its first \<open>await\<close>: the two early returns, and the
  \<open>try { existing.socket.end(); } catch (e) { }\<close> on the socket of an existing session.
  \<open>Some r\<close> is the early return of \<open>r\<close>; \<open>None\<close> means that the call goes on.
\<close>

definition startSession_begin :: "env \<Rightarrow> userId \<Rightarrow> world \<Rightarrow> start_result option \<times> world" where
  "startSession_begin e userId w0 =
     (let w = ensureSessionsDir w0 in
      case sessions w userId of
        None \<Rightarrow> (None, w)
      | Some existing \<Rightarrow>
          if status existing = Connected then (Some (StartConnected (phoneNumber existing)), w)
          else if status existing = Qr \<and> truthy_str (qrBase64 existing)
            then (Some (StartQr (qrBase64 existing)), w)
          else (case socket existing of
                  None \<Rightarrow> (None, w)
                | Some h \<Rightarrow> (None, snd (socket_end e h w))))"

text \<open>
  The awaited \<open>useDBAuthState(userId)\<close>, which loads from the store as it is when the
  request is served, or the awaited \<open>useMultiFileAuthState(sessionDir)\<close> of the library,
  which creates the session directory.  The second \<open>await\<close>, of the library's
  \<open>fetchLatestBaileysVersion()\<close>, changes nothing here: the version it returns is handed
  to \<open>makeWASocket\<close> and is not part of the model.
\<close>

definition startSession_auth :: "env \<Rightarrow> userId \<Rightarrow> world \<Rightarrow> auth \<times> world" where
  "startSession_auth e userId w =
     (if useDBAuth e then
        (DBAuthState
           (fst (useDBAuthState (if loadOk e then Some (store_load (store w) userId) else None))),
         w)
      else (MultiFileAuthState userId, w\<lparr>sessionDirs := insert userId (sessionDirs w)\<rparr>))"

text \<open>
  The part after the awaits: \<open>sessions.set(userId, {...})\<close> puts a new session object
  in the place of whatever the registry holds, the socket is made and stored in it, and
  the handler for \<open>userId\<close> is registered on the socket, which is open from then on.
\<close>

definition startSession_finish :: "userId \<Rightarrow> auth \<Rightarrow> world \<Rightarrow> start_result \<times> world" where
  "startSession_finish userId a w =
     (let h = next_handle w;
          s = \<lparr>socket = Some h, qr = None, qrBase64 = None, status = Connecting,
               phoneNumber = None\<rparr>
      in (StartConnecting ''Session starting, QR code will be available shortly'',
          w\<lparr>sessions := (sessions w)(userId \<mapsto> s),
            next_handle := Suc h,
            open_sockets := open_sockets w @ [(h, userId)],
            trace := trace w @ [MakeWASocket h userId a]\<rparr>))"

text \<open>A call of \<open>startSession\<close> that no other handler runs in between.\<close>

definition startSession :: "env \<Rightarrow> userId \<Rightarrow> world \<Rightarrow> start_result \<times> world" where
  "startSession e userId w =
     (case startSession_begin e userId w of
        (Some r, w1) \<Rightarrow> (r, w1)
      | (None, w1) \<Rightarrow>
          (case startSession_auth e userId w1 of
             (a, w2) \<Rightarrow> startSession_finish userId a w2))"

subsection \<open>sendMessage, disconnectSession, logoutSession, resetSession\<close>

text \<open>\<open>to.includes('@') ? to : `${to}@s.whatsapp.net`\<close>\<close>

definition jid_of :: "string \<Rightarrow> string" where
  "jid_of to = (if CHR ''@'' \<in> set to then to else to @ ''@s.whatsapp.net'')"

text \<open>
  \<open>sendMessage\<close> is an \<open>async\<close> function: what is called its error here is the reason
  its promise is rejected with.  The \<open>throw\<close> before the \<open>try\<close> is of a plain \<open>Error\<close>
  with a message; inside the \<open>try\<close>, the \<open>TypeError\<close> of calling \<open>sendMessage\<close> on a
  socket that is \<open>null\<close> and the error of the library's call are caught, logged and
  thrown again.
\<close>

definition sendMessage :: "env \<Rightarrow> userId \<Rightarrow> string \<Rightarrow> string \<Rightarrow> world \<Rightarrow> (error + op_result) \<times> world" where
  "sendMessage e userId to message w =
     (case sessions w userId of
        None \<Rightarrow> (Inl (Error (''Session not connected for user '' @ userId)), w)
      | Some s \<Rightarrow>
          if status s \<noteq> Connected
          then (Inl (Error (''Session not connected for user '' @ userId)), w)
          else (case socket s of
                  None \<Rightarrow> (Inl TypeError, w)
                | Some h \<Rightarrow>
                    (let w1 = w\<lparr>trace := trace w @ [SocketSendMessage h (jid_of to) message]\<rparr>
                     in if sendThrows e then (Inl LibraryError, w1)
                        else (Inr (Success None), w1))))"

definition disconnectSession :: "env \<Rightarrow> userId \<Rightarrow> world \<Rightarrow> (error + op_result) \<times> world" where
  "disconnectSession e userId w =
     (case (case sessions w userId of None \<Rightarrow> None | Some s \<Rightarrow> socket s) of
        None \<Rightarrow> (Inr (Success (Some ''Session not active'')), w)
      | Some h \<Rightarrow>
          (case socket_end e h w of
             (Some err, w1) \<Rightarrow> (Inl err, w1)
           | (None, w1) \<Rightarrow>
               (Inr (Success (Some ''Disconnected. You can reconnect without QR scan.'')),
                w1\<lparr>sessions := (sessions w1)(userId := None)\<rparr>)))"

text \<open>
  \<open>deleteDBAuth\<close>: the \<open>DELETE\<close> request; \<open>true\<close> when it succeeded, \<open>false\<close> from the
  \<open>catch\<close> when it failed.
\<close>

definition deleteDBAuth :: "env \<Rightarrow> userId \<Rightarrow> world \<Rightarrow> bool \<times> world" where
  "deleteDBAuth e sessionId w =
     (let w1 = w\<lparr>trace := trace w @ [DeleteAuth sessionId]\<rparr>
      in if deleteOk e then (True, w1\<lparr>store := (store w1)(sessionId := None)\<rparr>)
         else (False, w1))"

text \<open>
  \<open>if (config.useDBAuth) { await deleteDBAuth(userId); } else { if (fs.existsSync(sessionDir))
  fs.rmSync(sessionDir, ...) }\<close>, as \<open>logoutSession\<close> and \<open>resetSession\<close> both have it: the
  result of \<open>deleteDBAuth\<close> is not looked at.
\<close>

definition removeAuth :: "env \<Rightarrow> userId \<Rightarrow> world \<Rightarrow> world" where
  "removeAuth e userId w =
     (if useDBAuth e then snd (deleteDBAuth e userId w)
      else w\<lparr>sessionDirs := sessionDirs w - {userId}\<rparr>)"

definition logoutSession :: "env \<Rightarrow> userId \<Rightarrow> world \<Rightarrow> (error + op_result) \<times> world" where
  "logoutSession e userId w =
     (case (case (case sessions w userId of None \<Rightarrow> None | Some s \<Rightarrow> socket s) of
              None \<Rightarrow> (None, w)
            | Some h \<Rightarrow> socket_logout e h w) of
        (Some err, w1) \<Rightarrow> (Inl err, w1)
      | (None, w1) \<Rightarrow>
          (Inr (Success (Some ''Logged out. QR scan required to reconnect.'')),
           removeAuth e userId (w1\<lparr>sessions := (sessions w1)(userId := None)\<rparr>)))"



subsection \<open>Close causes\<close>

text \<open>
  The terminal close causes: explicit logout, access forbidden, and the incompatible
  protocol version (code 405).  Every other status code, and a close without one, is
  retryable.
\<close>

definition terminal :: "env \<Rightarrow> int option \<Rightarrow> bool" where
  "terminal e c = (c = Some (loggedOut e) \<or> c = Some (forbidden e) \<or> c = Some 405)"

text \<open>The socket of the registered session of a user, \<open>session?.socket\<close>.\<close>

definition socket_of :: "world \<Rightarrow> userId \<Rightarrow> handle option" where
  "socket_of w userId = (case sessions w userId of None \<Rightarrow> None | Some s \<Rightarrow> socket s)"

text \<open>
  The live connection handles of a user: the open sockets whose handler was registered
  for the user, in the order they were made.
\<close>

definition live_handles :: "world \<Rightarrow> userId \<Rightarrow> handle list" where
  "live_handles w userId = map fst (filter (\<lambda>(h, i). i = userId) (open_sockets w))"

text \<open>Every live handle of the user is the socket of the user's registered session.\<close>

definition registered_only :: "world \<Rightarrow> userId \<Rightarrow> bool" where
  "registered_only w userId =
     list_all (\<lambda>h. socket_of w userId = Some h) (live_handles w userId)"



section \<open>Data of the codec\<close>

text \<open>The sextets that \<open>Buffer.from(s, 'base64')\<close> reads from a string.\<close>

definition sextets :: "string \<Rightarrow> nat list" where
  "sextets s = List.map_filter b64index (takeWhile (\<lambda>c. c \<noteq> CHR ''='') s)"

text \<open>
  Data in which every byte sequence is non-empty and no object has a property
  \<open>type\<close> equal to \<open>'Buffer'\<close>.
\<close>

fun plain :: "jsval \<Rightarrow> bool" where
  "plain (VBuf bs) = (bs \<noteq> [])"
| "plain (VArr xs) = list_all plain xs"
| "plain (VObj kvs) =
     (map_of kvs ''type'' \<noteq> Some (VStr ''Buffer'') \<and> list_all (\<lambda>(k, v). plain v) kvs)"
| "plain v = True"

section \<open>Key updates of one debounce window\<close>








text \<open>The two states have the same timers and requests.\<close>

definition same_outside :: "authstate \<Rightarrow> authstate \<Rightarrow> bool" where
  "same_outside a b =
     (live_timers b = live_timers a \<and> keyUpdateTimeout b = keyUpdateTimeout a
      \<and> next_timer b = next_timer a \<and> patches b = patches a)"

text \<open>The closure has no live timer but the one \<open>keyUpdateTimeout\<close> refers to.\<close>

definition tracked :: "authstate \<Rightarrow> bool" where
  "tracked a =
     (live_timers a = []
      \<or> (case keyUpdateTimeout a of None \<Rightarrow> False | Some t \<Rightarrow> live_timers a = [(t, 500)]))"

text \<open>
  What holds of the closure in every state: the pending map is an object, so no key
  occurs in it twice, and no timer is live but the one \<open>keyUpdateTimeout\<close> refers to.
\<close>

definition consistent :: "authstate \<Rightarrow> bool" where
  "consistent a = (distinct (map fst (pendingKeyUpdates a)) \<and> tracked a)"

section \<open>Concrete inputs\<close>

definition env0 :: env where
  "env0 =
     \<lparr>useDBAuth = True, loggedOut = 401, forbidden = 403, endThrows = False,
      logoutThrows = False, sendThrows = False, deleteOk = True, loadOk = True,
      toDataURL = (\<lambda>q. Some (''data:image/png;base64,'' @ q)),
      socketUserId = Some ''919876543210:7@s.whatsapp.net''\<rparr>"

definition world0 :: world where
  "world0 =
     \<lparr>sessions = Map.empty, store = Map.empty, sessionsDirExists = True, sessionDirs = {},
      next_handle = 0, open_sockets = [], timers = [], trace = []\<rparr>"

definition session_of :: "status \<Rightarrow> handle option \<Rightarrow> session" where
  "session_of st h =
     \<lparr>socket = h, qr = None, qrBase64 = None, status = st, phoneNumber = None\<rparr>"

text \<open>
  User \<open>u1\<close> has session \<open>s\<close>; the socket with handle 0 was made for it, and it is open
  unless the session is reconnecting or disconnected, the two states a close leaves.
\<close>

definition world1 :: "session \<Rightarrow> world" where
  "world1 s =
     world0\<lparr>sessions := [''u1'' \<mapsto> s], next_handle := 1,
            open_sockets := (if status s = Reconnecting \<or> status s = Disconnected then []
                             else [(0, ''u1'')]),
            trace := [MakeWASocket 0 ''u1'' (DBAuthState InitAuthCreds)]\<rparr>"

text \<open>
  The connection of \<open>u1\<close> was lost: the session is reconnecting and still holds
  socket 0, which the library has closed.
\<close>

definition overlap_world :: world where
  "overlap_world = world1 (session_of Reconnecting (Some 0))"

text \<open>
  Two calls of \<open>startSession('u1')\<close> on \<open>overlap_world\<close>, the second entered while the
  first waits at its \<open>await\<close>: both pass the checks and end socket 0, both load the
  credentials, then the first and after it the second run from \<open>sessions.set\<close> on.
\<close>

definition overlapping_starts :: world where
  "overlapping_starts =
     (let w1 = snd (startSession_begin env0 ''u1'' overlap_world);
          w2 = snd (startSession_begin env0 ''u1'' w1);
          (a1, w3) = startSession_auth env0 ''u1'' w2;
          (a2, w4) = startSession_auth env0 ''u1'' w3;
          w5 = snd (startSession_finish ''u1'' a1 w4)
      in snd (startSession_finish ''u1'' a2 w5))"

text \<open>
  After the overlapping calls the server closes socket 1, the one the registry does not
  hold, with the code 403; then the connection of socket 2 opens.
\<close>

definition orphan_closed :: world where
  "orphan_closed =
     (let w1 = library_end env0 1 (Some 403) (Some ''Forbidden'') overlapping_starts
      in case onConnectionUpdate env0 ''u1''
                \<lparr>connection = Some ConnOpen, statusCode = None, errorMessage = None,
                  qrCode = None\<rparr> w1 of
           Inl err \<Rightarrow> w1
         | Inr w2 \<Rightarrow> w2)"

text \<open>User \<open>u1\<close> is connected on socket 0 and has credentials in the store.\<close>

definition stored_world :: world where
  "stored_world =
     (world1 (session_of Connected (Some 0)))
       \<lparr>store := [''u1'' \<mapsto> (VObj [(''registrationId'', VNum 7)], [])]\<rparr>"





text \<open>
  A state whose timer fires with two pending entries, and the state reached when two
  more keys are set while the request of that flush is under way.
\<close>

definition flushing :: authstate where
  "flushing =
     new_authstate\<lparr>pendingKeyUpdates := [(''pre-key:1'', Some (VNum 1)), (''pre-key:2'', None)]\<rparr>"

definition during :: authstate where
  "during =
     snd (keys_set [(''pre-key'', [(''1'', Some (VNum 9))]), (''session'', [(''a'', Some (VNum 5))])]
            (snd (flush_begin flushing)))"

text \<open>
  The flush of \<open>flushing\<close> is under way; \<open>pre-key:1\<close> is set to 9, the timer of that
  update (timer 0) fires and a second flush takes the new value.
\<close>

definition overlapped :: authstate where
  "overlapped =
     snd (fire_timer 0
            (snd (keys_set [(''pre-key'', [(''1'', Some (VNum 9))])]
                    (snd (flush_begin flushing)))))"

section \<open>Properties of the session manager\<close>

subsection \<open>disconnectSession on a session that is not active\<close>

text \<open>
  C10.  \<open>disconnectSession(id)\<close> on an id with no registered session, or whose session
  has no socket, returns success with the message "Session not active" and changes
  nothing: not the registry, not the store, nor anything else.
\<close>

theorem disconnect_not_active:
  assumes "sessions w userId = None \<or> (\<exists>s. sessions w userId = Some s \<and> socket s = None)"
  shows "disconnectSession e userId w = (Inr (Success (Some ''Session not active'')), w)"
  using assms by (auto simp: disconnectSession_def)

theorem disconnect_not_active_witness:
  "disconnectSession env0 ''u1'' world0 = (Inr (Success (Some ''Session not active'')), world0)
   \<and> disconnectSession env0 ''u1'' (world1 (session_of Disconnected None))
       = (Inr (Success (Some ''Session not active'')), world1 (session_of Disconnected None))"
proof -
  have a: "sessions world0 ''u1'' = None
             \<or> (\<exists>s. sessions world0 ''u1'' = Some s \<and> socket s = None)"
    by (simp add: world0_def)
  have b: "sessions (world1 (session_of Disconnected None)) ''u1'' = None
             \<or> (\<exists>s. sessions (world1 (session_of Disconnected None)) ''u1'' = Some s
                     \<and> socket s = None)"
    by (simp add: world1_def world0_def session_of_def)
  show ?thesis
    using disconnect_not_active [OF a, of env0] disconnect_not_active [OF b, of env0] by simp
qed

subsection \<open>sendMessage\<close>

text \<open>
  C9, as the code has it.  \<open>sendMessage(id, to, text)\<close> ends with a plain \<open>Error\<close>
  whose message is "Session not connected for user" and the id, and changes nothing,
  when no session is registered for the id or its status is not connected.  On a
  connected session that holds a socket it calls the socket's \<open>sendMessage\<close> once, with
  the recipient followed by \<open>@s.whatsapp.net\<close> exactly when the recipient has no \<open>@\<close>;
  it returns success when that call returns, and ends with the error of that call when
  it throws.  On a connected session whose socket is \<open>null\<close> it ends with a
  \<open>TypeError\<close> and calls nothing.
\<close>

theorem sendMessage_contract:
  "((sessions w userId = None \<or> (\<exists>s. sessions w userId = Some s \<and> status s \<noteq> Connected))
      \<longrightarrow> sendMessage e userId to message w
            = (Inl (Error (''Session not connected for user '' @ userId)), w))
   \<and> ((\<exists>s. sessions w userId = Some s \<and> status s = Connected \<and> socket s = Some h)
      \<longrightarrow> sendMessage e userId to message w =
            (if sendThrows e then Inl LibraryError else Inr (Success None),
             w\<lparr>trace := trace w @
                [SocketSendMessage h
                   (if CHR ''@'' \<in> set to then to else to @ ''@s.whatsapp.net'') message]\<rparr>))
   \<and> ((\<exists>s. sessions w userId = Some s \<and> status s = Connected \<and> socket s = None)
      \<longrightarrow> sendMessage e userId to message w = (Inl TypeError, w))"
  by (auto simp: sendMessage_def jid_of_def Let_def)

theorem sendMessage_contract_witness:
  "sendMessage env0 ''u1'' ''919876543210'' ''hello'' world0
     = (Inl (Error ''Session not connected for user u1''), world0)
   \<and> sendMessage env0 ''u1'' ''919876543210'' ''hello'' (world1 (session_of Qr (Some 0)))
     = (Inl (Error ''Session not connected for user u1''), world1 (session_of Qr (Some 0)))
   \<and> sendMessage env0 ''u1'' ''919876543210'' ''hello'' (world1 (session_of Connected (Some 0)))
     = (Inr (Success None),
        (world1 (session_of Connected (Some 0)))
          \<lparr>trace := [MakeWASocket 0 ''u1'' (DBAuthState InitAuthCreds),
                     SocketSendMessage 0 ''919876543210@s.whatsapp.net'' ''hello'']\<rparr>)
   \<and> sendMessage env0 ''u1'' ''1203630@g.us'' ''hello'' (world1 (session_of Connected (Some 0)))
     = (Inr (Success None),
        (world1 (session_of Connected (Some 0)))
          \<lparr>trace := [MakeWASocket 0 ''u1'' (DBAuthState InitAuthCreds),
                     SocketSendMessage 0 ''1203630@g.us'' ''hello'']\<rparr>)
   \<and> sendMessage env0 ''u1'' ''919876543210'' ''hello'' (world1 (session_of Connected None))
     = (Inl TypeError, world1 (session_of Connected None))"
  using sendMessage_contract [of world0 "''u1''" env0 "''919876543210''" "''hello''" 0]
    sendMessage_contract [of "world1 (session_of Qr (Some 0))" "''u1''" env0 "''919876543210''"
      "''hello''" 0]
    sendMessage_contract [of "world1 (session_of Connected (Some 0))" "''u1''" env0
      "''919876543210''" "''hello''" 0]
    sendMessage_contract [of "world1 (session_of Connected (Some 0))" "''u1''" env0
      "''1203630@g.us''" "''hello''" 0]
    sendMessage_contract [of "world1 (session_of Connected None)" "''u1''" env0
      "''919876543210''" "''hello''" 0]
  by (simp add: world0_def world1_def session_of_def env0_def)

text \<open>
  C9, as stated, fails.  User \<open>u1\<close> is connected on socket 0 and the library's
  \<open>sendMessage\<close> throws: the call is made, and \<open>sendMessage\<close> ends with the error of
  the library, not with success.  And in the state that two overlapping starts, a
  terminal close of the socket the registry had lost and the opening of the other
  socket lead to, the session of \<open>u1\<close> is connected and its socket is \<open>null\<close>:
  \<open>sendMessage\<close> ends with a \<open>TypeError\<close> and the protocol client is not called.
\<close>

theorem sendMessage_counterexample:
  "sendMessage (env0\<lparr>sendThrows := True\<rparr>) ''u1'' ''919876543210'' ''hello''
      (world1 (session_of Connected (Some 0)))
     = (Inl LibraryError,
        (world1 (session_of Connected (Some 0)))
          \<lparr>trace := [MakeWASocket 0 ''u1'' (DBAuthState InitAuthCreds),
                     SocketSendMessage 0 ''919876543210@s.whatsapp.net'' ''hello'']\<rparr>)
   \<and> map_option status (sessions orphan_closed ''u1'') = Some Connected
   \<and> socket_of orphan_closed ''u1'' = None
   \<and> live_handles orphan_closed ''u1'' = [2]
   \<and> sendMessage env0 ''u1'' ''919876543210'' ''hello'' orphan_closed
     = (Inl TypeError, orphan_closed)"
  by (simp add: sendMessage_def jid_of_def Let_def orphan_closed_def overlapping_starts_def
      overlap_world_def world1_def world0_def session_of_def env0_def socket_of_def
      live_handles_def library_end_def socket_end_def close_update_def onConnectionUpdate_def
      onQr_def onClose_def onOpen_def shouldReconnect_def phone_of_def
      startSession_begin_def startSession_auth_def startSession_finish_def
      ensureSessionsDir_def truthy_str_def useDBAuthState_def loadAuth_def store_load_def
      new_authstate_def)

subsection \<open>startSession on a connected session or a pending QR code\<close>

text \<open>
  C4.  When the registered session of an id is connected, \<open>startSession(id)\<close> returns
  that status with the phone number; when it is in \<open>qr\<close> with a cached image,
  \<open>startSession(id)\<close> returns the cached image.  In both cases no socket is made or
  ended, no request is sent and the session is left as it is: all that can change is
  that the sessions directory now exists.
\<close>

theorem startSession_idempotent:
  "(sessions w userId = Some s \<and> status s = Connected
      \<longrightarrow> startSession e userId w
            = (StartConnected (phoneNumber s), w\<lparr>sessionsDirExists := True\<rparr>))
   \<and> (sessions w userId = Some s \<and> status s = Qr \<and> truthy_str (qrBase64 s)
      \<longrightarrow> startSession e userId w = (StartQr (qrBase64 s), w\<lparr>sessionsDirExists := True\<rparr>))"
  by (auto simp: startSession_def startSession_begin_def ensureSessionsDir_def Let_def)

theorem startSession_idempotent_witness:
  "startSession env0 ''u1''
      (world1 ((session_of Connected (Some 0))\<lparr>phoneNumber := Some ''919876543210''\<rparr>))
     = (StartConnected (Some ''919876543210''),
        world1 ((session_of Connected (Some 0))\<lparr>phoneNumber := Some ''919876543210''\<rparr>))
   \<and> startSession env0 ''u1''
      (world1 ((session_of Qr (Some 0))\<lparr>qrBase64 := Some ''data:image/png;base64,AAAA''\<rparr>))
     = (StartQr (Some ''data:image/png;base64,AAAA''),
        world1 ((session_of Qr (Some 0))\<lparr>qrBase64 := Some ''data:image/png;base64,AAAA''\<rparr>))"
  using startSession_idempotent
      [of "world1 ((session_of Connected (Some 0))\<lparr>phoneNumber := Some ''919876543210''\<rparr>)"
          "''u1''" "(session_of Connected (Some 0))\<lparr>phoneNumber := Some ''919876543210''\<rparr>" env0]
    startSession_idempotent
      [of "world1 ((session_of Qr (Some 0))\<lparr>qrBase64 := Some ''data:image/png;base64,AAAA''\<rparr>)"
          "''u1''" "(session_of Qr (Some 0))\<lparr>qrBase64 := Some ''data:image/png;base64,AAAA''\<rparr>"
          env0]
  by (simp add: world0_def world1_def session_of_def truthy_str_def)

subsection \<open>Classification of a close\<close>

lemma onQr_frame:
  "trace (onQr e userId u w) = trace w \<and> timers (onQr e userId u w) = timers w
   \<and> (sessions w userId = None \<longleftrightarrow> sessions (onQr e userId u w) userId = None)"
  by (auto simp: onQr_def split: option.splits)

text \<open>
  C2.  An update with \<open>connection = 'close'\<close> is handled for a user whose session is
  registered.  When the status code is a terminal cause (logged out, forbidden, 405),
  the session becomes disconnected, its socket and phone number are cleared, the
  backend is notified of the disconnect and no timer is set.  In every other case,
  a missing status code included, the session becomes reconnecting and exactly one
  timer is set: \<open>startSession(id)\<close> after 5000 milliseconds; the backend is not notified.
\<close>

theorem close_classification:
  assumes "sessions w userId = Some s" and "connection u = Some ConnClose"
  shows "\<exists>w' s'. onConnectionUpdate e userId u w = Inr w' \<and> sessions w' userId = Some s'
           \<and> (if terminal e (statusCode u)
               then status s' = Disconnected \<and> socket s' = None \<and> phoneNumber s' = None
                    \<and> trace w' = trace w @
                         [NotifyBackend userId ''disconnected'' (Some (close_reason u))]
                    \<and> timers w' = timers w
               else status s' = Reconnecting
                    \<and> timers w' = timers w @ [(5000, userId)]
                    \<and> trace w' = trace w)"
proof -
  obtain s1 where s1: "sessions (onQr e userId u w) userId = Some s1"
    using assms(1) onQr_frame [of e userId u w]
    by (cases "sessions (onQr e userId u w) userId") auto
  show ?thesis
    using assms(2) s1 onQr_frame [of e userId u w]
    by (auto simp: onConnectionUpdate_def onClose_def shouldReconnect_def terminal_def Let_def)
qed

theorem close_classification_witness:
  "(\<exists>w' s'. onConnectionUpdate env0 ''u1'' (close_update (Some 401) (Some ''Intentional Logout''))
               (world1 (session_of Connected (Some 0))) = Inr w'
            \<and> sessions w' ''u1'' = Some s'
            \<and> status s' = Disconnected \<and> socket s' = None \<and> phoneNumber s' = None
            \<and> trace w' = [MakeWASocket 0 ''u1'' (DBAuthState InitAuthCreds),
                           NotifyBackend ''u1'' ''disconnected'' (Some ''Intentional Logout'')]
            \<and> timers w' = [])
   \<and> (\<exists>w' s'. onConnectionUpdate env0 ''u1'' (close_update (Some 428) None)
               (world1 (session_of Connected (Some 0))) = Inr w'
            \<and> sessions w' ''u1'' = Some s'
            \<and> status s' = Reconnecting
            \<and> timers w' = [(5000, ''u1'')]
            \<and> trace w' = [MakeWASocket 0 ''u1'' (DBAuthState InitAuthCreds)])"
proof -
  have a: "sessions (world1 (session_of Connected (Some 0))) ''u1''
             = Some (session_of Connected (Some 0))"
    by (simp add: world1_def world0_def)
  have b: "connection (close_update c m) = Some ConnClose" for c m
    by (simp add: close_update_def)
  show ?thesis
    using close_classification [OF a b, of env0 "Some 401" "Some ''Intentional Logout''"]
      close_classification [OF a b, of env0 "Some 428" None]
    by (simp add: terminal_def env0_def close_reason_def close_update_def world1_def world0_def)
qed

subsection \<open>What a close by the library changes\<close>

lemma onConnectionUpdate_frame:
  assumes "onConnectionUpdate e i u w = Inr w'"
  shows "open_sockets w' = open_sockets w \<and> store w' = store w
         \<and> sessionDirs w' = sessionDirs w \<and> sessionsDirExists w' = sessionsDirExists w
         \<and> next_handle w' = next_handle w"
  using assms
  by (auto simp: onConnectionUpdate_def onQr_def onClose_def onOpen_def Let_def
      split: option.splits if_splits conn.splits)

lemma library_end_frame:
  "open_sockets (library_end e h c m w) = filter (\<lambda>(h', i). h' \<noteq> h) (open_sockets w)
   \<and> store (library_end e h c m w) = store w
   \<and> sessionDirs (library_end e h c m w) = sessionDirs w
   \<and> sessionsDirExists (library_end e h c m w) = sessionsDirExists w
   \<and> next_handle (library_end e h c m w) = next_handle w"
proof (cases "map_of (open_sockets w) h")
  case None
  have "filter (\<lambda>(h', i). h' \<noteq> h) (open_sockets w) = open_sockets w"
    using None by (auto simp: filter_id_conv map_of_eq_None_iff image_iff)
  then show ?thesis
    using None by (simp add: library_end_def)
next
  case (Some i)
  define w1 where "w1 = w\<lparr>open_sockets := filter (\<lambda>(h', i). h' \<noteq> h) (open_sockets w)\<rparr>"
  show ?thesis
  proof (cases "onConnectionUpdate e i (close_update c m) w1")
    case (Inl err)
    then show ?thesis
      using Some by (simp add: library_end_def Let_def w1_def)
  next
    case (Inr w2)
    then show ?thesis
      using Some onConnectionUpdate_frame [OF Inr]
      by (simp add: library_end_def Let_def w1_def)
  qed
qed



subsection \<open>One live connection handle\<close>

lemma live_handles_filter:
  "map fst (filter (\<lambda>(h', j). j = i) (filter (\<lambda>(h', j). h' \<noteq> h) l))
     = filter (\<lambda>h'. h' \<noteq> h) (map fst (filter (\<lambda>(h', j). j = i) l))"
  by (induction l) auto

lemma live_handles_end:
  "live_handles (library_end e h c m w) i = filter (\<lambda>h'. h' \<noteq> h) (live_handles w i)"
  using library_end_frame [of e h c m w]
  by (simp add: live_handles_def live_handles_filter del: filter_filter)

text \<open>
  A call of \<open>startSession(id)\<close> that runs alone and goes past the two early returns:
  when every live handle of the id is the socket of its registered session and
  \<open>end()\<close> does not throw, the socket of the registered session is ended before the new
  one is made, and after the call the id has one live handle, the new socket, which is
  the one in the registry.
\<close>

lemma startSession_alone:
  assumes "registered_only w userId" and "\<not> endThrows e"
    and "fst (startSession_begin e userId w) = None"
  shows "live_handles (snd (startSession e userId w)) userId = [next_handle w]
         \<and> socket_of (snd (startSession e userId w)) userId = Some (next_handle w)"
proof -
  define w0 where "w0 = ensureSessionsDir w"
  have w0: "open_sockets w0 = open_sockets w" "sessions w0 = sessions w"
      "next_handle w0 = next_handle w" "trace w0 = trace w"
    by (simp_all add: w0_def ensureSessionsDir_def)
  define w1 where "w1 = snd (startSession_begin e userId w)"
  have b: "startSession_begin e userId w = (None, w1)"
    using assms(3) by (cases "startSession_begin e userId w") (simp add: w1_def)
  have l1: "live_handles w1 userId = [] \<and> next_handle w1 = next_handle w"
  proof (cases "socket_of w userId")
    case None
    have "w1 = w0"
      using None assms(3)
      by (auto simp: w1_def startSession_begin_def socket_of_def w0_def [symmetric] w0 Let_def
          split: option.splits if_splits)
    moreover have "live_handles w userId = []"
      using assms(1) None by (cases "live_handles w userId") (simp_all add: registered_only_def)
    ultimately show ?thesis
      using w0 by (simp add: live_handles_def)
  next
    case (Some h)
    have "w1 = library_end e h None None (w0\<lparr>trace := trace w0 @ [SocketEnd h]\<rparr>)"
      using Some assms(2,3)
      by (auto simp: w1_def startSession_begin_def socket_of_def w0_def [symmetric] w0
          socket_end_def Let_def split: option.splits if_splits)
    moreover have "filter (\<lambda>h'. h' \<noteq> h) (live_handles w userId) = []"
      using assms(1) Some by (auto simp: registered_only_def list_all_iff filter_empty_conv)
    ultimately show ?thesis
      using w0 library_end_frame [of e h None None "w0\<lparr>trace := trace w0 @ [SocketEnd h]\<rparr>"]
      by (simp add: live_handles_end) (simp add: live_handles_def)
  qed
  obtain a w2 where au: "startSession_auth e userId w1 = (a, w2)"
    by (cases "startSession_auth e userId w1")
  have l2: "open_sockets w2 = open_sockets w1" "next_handle w2 = next_handle w1"
    using au by (auto simp: startSession_auth_def split: if_splits)
  have st: "startSession e userId w = startSession_finish userId a w2"
    by (simp add: startSession_def b au)
  show ?thesis
    unfolding st using l1 l2
    by (simp add: startSession_finish_def Let_def live_handles_def socket_of_def)
qed

text \<open>
  C3 on the code.  The session of \<open>u1\<close> is reconnecting after the loss of socket 0.
  A second \<open>startSession('u1')\<close> is entered while the first waits at its \<open>await\<close>: both
  calls pass the checks and go on.  The first makes socket 1 and registers it; the
  second then puts a new session with socket 2 in its place and never ends socket 1.
  Two handles are live for \<open>u1\<close> side by side, and the registry knows only the second.
\<close>

theorem overlapping_starts_two_live:
  "registered_only overlap_world ''u1''
   \<and> fst (startSession_begin env0 ''u1'' overlap_world) = None
   \<and> fst (startSession_begin env0 ''u1'' (snd (startSession_begin env0 ''u1'' overlap_world)))
       = None
   \<and> live_handles overlapping_starts ''u1'' = [1, 2]
   \<and> socket_of overlapping_starts ''u1'' = Some 2
   \<and> \<not> registered_only overlapping_starts ''u1''
   \<and> trace overlapping_starts
       = [MakeWASocket 0 ''u1'' (DBAuthState InitAuthCreds), SocketEnd 0, SocketEnd 0,
          MakeWASocket 1 ''u1'' (DBAuthState InitAuthCreds),
          MakeWASocket 2 ''u1'' (DBAuthState InitAuthCreds)]"
  by (simp add: overlapping_starts_def overlap_world_def world1_def world0_def session_of_def
      env0_def socket_of_def live_handles_def registered_only_def library_end_def
      socket_end_def startSession_begin_def startSession_auth_def startSession_finish_def
      ensureSessionsDir_def truthy_str_def useDBAuthState_def loadAuth_def store_load_def
      new_authstate_def Let_def)

subsection \<open>logoutSession and the store\<close>

lemma fresh_auth:
  assumes "useDBAuth e'" and "store w userId = None"
  shows "fst (startSession_auth e' userId w) = DBAuthState InitAuthCreds"
  using assms
  by (simp add: startSession_auth_def useDBAuthState_def loadAuth_def store_load_def
      new_authstate_def)

lemma socket_logout_frame:
  assumes "socket_logout e h w = (r, w1)"
  shows "store w1 = store w \<and> sessionDirs w1 = sessionDirs w"
  using assms library_end_frame [of e h _ _ "w\<lparr>trace := trace w @ [SocketLogout h]\<rparr>"]
  by (auto simp: socket_logout_def Let_def split: if_splits)

text \<open>
  What a completed \<open>logoutSession(id)\<close> does guarantee: the session is no longer
  registered; with the database and a \<open>DELETE\<close> request that succeeded, the store has
  nothing for the id, a load reports \<open>has_credentials = false\<close> and the next start is
  given freshly initialised credentials; with files, the session directory is gone.
\<close>

lemma logout_purges:
  assumes "logoutSession e userId w = (Inr r, w')"
  shows "sessions w' userId = None
         \<and> (useDBAuth e \<and> deleteOk e
              \<longrightarrow> store w' userId = None
                  \<and> \<not> has_credentials (store_load (store w') userId)
                  \<and> (\<forall>e'. useDBAuth e'
                        \<longrightarrow> fst (startSession_auth e' userId w') = DBAuthState InitAuthCreds))
         \<and> (\<not> useDBAuth e \<longrightarrow> userId \<notin> sessionDirs w')"
proof -
  obtain w1 where w': "w' = removeAuth e userId (w1\<lparr>sessions := (sessions w1)(userId := None)\<rparr>)"
    using assms
    by (auto simp: logoutSession_def split: option.splits prod.splits)
  have reg: "sessions w' userId = None"
    by (simp add: w' removeAuth_def deleteDBAuth_def Let_def)
  have fm: "\<not> useDBAuth e \<longrightarrow> userId \<notin> sessionDirs w'"
    by (simp add: w' removeAuth_def)
  have db: "useDBAuth e \<and> deleteOk e \<longrightarrow> store w' userId = None"
    by (simp add: w' removeAuth_def deleteDBAuth_def Let_def)
  show ?thesis
    using reg fm db fresh_auth by (auto simp: store_load_def)
qed

text \<open>
  C5 on the code.  User \<open>u1\<close> is connected and has credentials in the store; the
  \<open>DELETE\<close> request of the logout fails.  \<open>deleteDBAuth\<close> returns \<open>false\<close>,
  \<open>logoutSession\<close> does not look at it and completes with "Logged out. QR scan required
  to reconnect.": the session is gone from the registry, but a load still reports
  \<open>has_credentials = true\<close>, and the next start is given the stored credentials.
\<close>

theorem logout_failed_delete:
  "fst (logoutSession (env0\<lparr>deleteOk := False\<rparr>) ''u1'' stored_world)
     = Inr (Success (Some ''Logged out. QR scan required to reconnect.''))
   \<and> sessions (snd (logoutSession (env0\<lparr>deleteOk := False\<rparr>) ''u1'' stored_world)) ''u1'' = None
   \<and> has_credentials
       (store_load (store (snd (logoutSession (env0\<lparr>deleteOk := False\<rparr>) ''u1'' stored_world)))
          ''u1'')
   \<and> fst (startSession_auth env0 ''u1''
            (snd (logoutSession (env0\<lparr>deleteOk := False\<rparr>) ''u1'' stored_world)))
       = DBAuthState (Loaded (VObj [(''registrationId'', VNum 7)]))"
  by (simp add: logoutSession_def removeAuth_def deleteDBAuth_def Let_def stored_world_def
      world1_def world0_def session_of_def env0_def store_load_def startSession_auth_def
      useDBAuthState_def loadAuth_def new_authstate_def reviver_def socket_logout_def
      library_end_def close_update_def onConnectionUpdate_def onQr_def onClose_def
      shouldReconnect_def)

subsection \<open>resetSession\<close>






section \<open>Properties of the key synchronisation\<close>

subsection \<open>Accumulation of updates\<close>





text \<open>
  The loops of \<open>state.keys.set\<close>, whether or not \<open>serializeData\<close> throws in them: no
  key comes to occur twice in the pending map, and no timer or request is touched.
\<close>

lemma set_ids_kept:
  assumes "distinct (map fst (pendingKeyUpdates a))"
  shows "distinct (map fst (pendingKeyUpdates (snd (set_ids ty es a))))
         \<and> same_outside a (snd (set_ids ty es a))"
  using assms
proof (induction es arbitrary: a)
  case Nil
  then show ?case by (simp add: same_outside_def)
next
  case (Cons x es)
  obtain i v where x: "x = (i, v)" by (cases x)
  show ?case
  proof (cases v)
    case None
    define b where "b = a\<lparr>keysCache := AList.delete (ty @ '':'' @ i) (keysCache a),
        pendingKeyUpdates := AList.update (ty @ '':'' @ i) None (pendingKeyUpdates a)\<rparr>"
    have step: "set_ids ty (x # es) a = set_ids ty es b"
      by (simp add: x None b_def Let_def)
    have d: "distinct (map fst (pendingKeyUpdates b))"
      using Cons.prems by (simp add: b_def distinct_update)
    show ?thesis
      unfolding step using Cons.IH [OF d] by (simp add: same_outside_def b_def)
  next
    case (Some y)
    show ?thesis
    proof (cases "serializeData y")
      case (Inl err)
      then show ?thesis
        using Cons.prems by (simp add: x Some Let_def same_outside_def)
    next
      case (Inr s)
      define b where "b = a\<lparr>keysCache := AList.update (ty @ '':'' @ i) s (keysCache a),
          pendingKeyUpdates := AList.update (ty @ '':'' @ i) (Some s) (pendingKeyUpdates a)\<rparr>"
      have step: "set_ids ty (x # es) a = set_ids ty es b"
        by (simp add: x Some Inr b_def Let_def)
      have d: "distinct (map fst (pendingKeyUpdates b))"
        using Cons.prems by (simp add: b_def distinct_update)
      show ?thesis
        unfolding step using Cons.IH [OF d] by (simp add: same_outside_def b_def)
    qed
  qed
qed

lemma set_types_kept:
  assumes "distinct (map fst (pendingKeyUpdates a))"
  shows "distinct (map fst (pendingKeyUpdates (snd (set_types data a))))
         \<and> same_outside a (snd (set_types data a))"
  using assms
proof (induction data arbitrary: a)
  case Nil
  then show ?case by (simp add: same_outside_def)
next
  case (Cons x data)
  obtain ty es where x: "x = (ty, es)" by (cases x)
  define b where "b = snd (set_ids ty es a)"
  have first: "distinct (map fst (pendingKeyUpdates b))" "same_outside a b"
    using set_ids_kept [OF Cons.prems, of ty es] by (simp_all add: b_def)
  show ?case
  proof (cases "fst (set_ids ty es a)")
    case None
    have step: "set_types (x # data) a = set_types data b"
      using None by (cases "set_ids ty es a") (simp add: x b_def)
    show ?thesis
      unfolding step using Cons.IH [OF first(1)] first(2) by (simp add: same_outside_def)
  next
    case (Some err)
    have step: "snd (set_types (x # data) a) = b"
      using Some by (cases "set_ids ty es a") (simp add: x b_def)
    show ?thesis
      unfolding step using first by simp
  qed
qed

text \<open>A call of \<open>state.keys.set\<close> that throws sets no timer and issues no request.\<close>

lemma keys_set_throws:
  assumes "fst (keys_set data a) = Some err"
    and "distinct (map fst (pendingKeyUpdates a))"
  shows "same_outside a (snd (keys_set data a))"
  using assms set_types_kept [OF assms(2), of data]
  by (cases "set_types data a"; cases "fst (set_types data a)")
    (auto simp: keys_set_def)



lemma scheduleKeySync_tracked:
  assumes "tracked a"
  shows "live_timers (scheduleKeySync a) = [(next_timer a, 500)]
         \<and> keyUpdateTimeout (scheduleKeySync a) = Some (next_timer a)
         \<and> pendingKeyUpdates (scheduleKeySync a) = pendingKeyUpdates a
         \<and> patches (scheduleKeySync a) = patches a"
  using assms by (auto simp: tracked_def scheduleKeySync_def Let_def split: option.splits)




subsection \<open>The states of the closure\<close>

lemma distinct_spread:
  assumes "distinct (map fst xs)"
  shows "distinct (map fst (spread xs ys))"
  using assms unfolding spread_def
proof (induction ys arbitrary: xs)
  case Nil
  then show ?case by simp
next
  case (Cons y ys)
  obtain k v where y: "y = (k, v)" by (cases y)
  show ?case
    using Cons.IH [of "AList.update k v xs"] Cons.prems by (simp add: y distinct_update)
qed

text \<open>
  \<open>consistent\<close> holds of the state that \<open>useDBAuthState\<close> returns and is kept by a call
  of \<open>state.keys.set\<close>, whether it throws or not, by a timer that fires, and by the
  \<open>catch\<close> of a flush, whose \<open>updates\<close> are what a timer's callback took from an
  earlier state.
\<close>

lemma consistent_created: "consistent (snd (useDBAuthState response))"
  by (auto simp: consistent_def tracked_def useDBAuthState_def loadAuth_def new_authstate_def
      split: option.splits sum.splits)

lemma consistent_keys_set:
  assumes "consistent a"
  shows "consistent (snd (keys_set data a))"
proof -
  define b where "b = snd (set_types data a)"
  have d: "distinct (map fst (pendingKeyUpdates a))" and t: "tracked a"
    using assms by (simp_all add: consistent_def)
  have st: "distinct (map fst (pendingKeyUpdates b))" "same_outside a b"
    using set_types_kept [OF d, of data] by (simp_all add: b_def)
  have tb: "tracked b"
    using t st(2) by (auto simp: tracked_def same_outside_def split: option.splits)
  show ?thesis
  proof (cases "fst (set_types data a)")
    case None
    have ks: "keys_set data a = (None, scheduleKeySync b)"
      using None by (cases "set_types data a") (simp add: keys_set_def b_def)
    show ?thesis
      unfolding ks using scheduleKeySync_tracked [OF tb] st(1)
      by (simp add: consistent_def tracked_def)
  next
    case (Some err)
    have ks: "snd (keys_set data a) = b"
      using Some by (cases "set_types data a") (simp add: keys_set_def b_def)
    show ?thesis
      unfolding ks using st(1) tb by (simp add: consistent_def)
  qed
qed

lemma consistent_fire_timer:
  assumes "consistent a"
  shows "consistent (snd (fire_timer t a))"
  using assms
  by (auto simp: consistent_def tracked_def fire_timer_def flush_begin_def Let_def
      split: option.splits if_splits)

lemma consistent_flush_failed:
  assumes "consistent a0" and "fire_timer t a0 = (Some updates, a1)" and "consistent a"
  shows "consistent (flush_failed updates a)"
proof -
  have "updates = pendingKeyUpdates a0"
    using assms(2) by (auto simp: fire_timer_def flush_begin_def Let_def split: if_splits)
  then have "distinct (map fst updates)"
    using assms(1) by (simp add: consistent_def)
  then show ?thesis
    using assms(3) distinct_spread [of updates "pendingKeyUpdates a"]
    by (auto simp: consistent_def tracked_def flush_failed_def split: option.splits)
qed


subsection \<open>The payload of a flush\<close>


lemma set_keys_fst:
  "fst ` set (List.map_filter (\<lambda>(k, v). map_option (Pair k) v) al)
     = {k. \<exists>v. (k, Some v) \<in> set al}"
  by (induction al) (auto split: option.splits)











subsection \<open>A failed flush\<close>

lemma map_of_spread:
  "map_of (spread xs ys) = map_of xs ++ map_of (rev ys)"
  unfolding spread_def
proof (induction ys arbitrary: xs)
  case Nil
  then show ?case by simp
next
  case (Cons y ys)
  obtain k v where y: "y = (k, v)" by (cases y)
  show ?case
    by (simp add: y Cons.IH update_conv' map_add_def fun_eq_iff split: option.splits)
qed

lemma dom_spread: "fst ` set (spread xs ys) = fst ` set xs \<union> fst ` set ys"
  unfolding spread_def
proof (induction ys arbitrary: xs)
  case Nil
  then show ?case by simp
next
  case (Cons y ys)
  obtain k v where y: "y = (k, v)" by (cases y)
  have "fst ` set (fold (\<lambda>(k, v). AList.update k v) (y # ys) xs)
          = fst ` set (AList.update k v xs) \<union> fst ` set ys"
    by (simp add: y Cons.IH)
  also have "\<dots> = fst ` set xs \<union> fst ` set (y # ys)"
    unfolding dom_update by (auto simp: y)
  finally show ?case .
qed

lemma map_of_rev_distinct:
  assumes "distinct (map fst ys)"
  shows "map_of (rev ys) = map_of ys"
  using assms by (simp add: map_of_inject_set distinct_rev rev_map [symmetric])

lemma keys_covered:
  "fst ` set al \<subseteq> fst ` set (List.map_filter (\<lambda>(k, v). map_option (Pair k) v) al)
                    \<union> set (map fst (filter (\<lambda>(k, v). v = None) al))"
proof
  fix k assume "k \<in> fst ` set al"
  then obtain v where kv: "(k, v) \<in> set al" by auto
  show "k \<in> fst ` set (List.map_filter (\<lambda>(k, v). map_option (Pair k) v) al)
              \<union> set (map fst (filter (\<lambda>(k, v). v = None) al))"
  proof (cases v)
    case None
    then show ?thesis using kv by force
  next
    case (Some x)
    then show ?thesis using kv unfolding set_keys_fst by blast
  qed
qed

text \<open>
  What the \<open>catch\<close> of a flush does by itself.  The flush has taken the entries
  \<open>updates\<close> out of the pending map; \<open>a\<close> is the state when its request fails, with
  whatever has become pending since.  The \<open>catch\<close> leaves a pending map in which a key
  pending in \<open>a\<close> keeps its value and every other key has the value of \<open>updates\<close>:
  every flushed key is pending again.  It sends nothing and sets no timer.
\<close>

lemma failed_flush_merge:
  assumes "distinct (map fst (pendingKeyUpdates a))"
  shows "(\<forall>k. map_of (pendingKeyUpdates (flush_failed updates a)) k
               = (case map_of (pendingKeyUpdates a) k of
                    Some v \<Rightarrow> Some v
                  | None \<Rightarrow> map_of updates k))
         \<and> fst ` set updates \<subseteq> fst ` set (pendingKeyUpdates (flush_failed updates a))
         \<and> same_outside a (flush_failed updates a)"
proof -
  define al where "al = spread updates (pendingKeyUpdates a)"
  have pa: "pendingKeyUpdates (flush_failed updates a) = al"
    by (simp add: flush_failed_def al_def)
  have m: "map_of al k = (case map_of (pendingKeyUpdates a) k of
                            Some v \<Rightarrow> Some v | None \<Rightarrow> map_of updates k)" for k
    by (simp add: al_def map_of_spread map_of_rev_distinct [OF assms] map_add_def)
  have dom: "fst ` set updates \<subseteq> fst ` set al"
    by (simp add: al_def dom_spread)
  show ?thesis
    using m dom unfolding pa by (auto simp: flush_failed_def same_outside_def)
qed

subsection \<open>A failed flush overlapped by a second flush\<close>

text \<open>
  C7 on the code.  The first flush takes \<open>pre-key:1 = 1\<close> and the deletion of
  \<open>pre-key:2\<close>; while its request is under way \<open>pre-key:1\<close> is set to 9 and becomes
  pending, the timer of that update fires and a second flush sends 9.  Then the first
  request fails.  Nothing is pending at that moment, so the \<open>catch\<close> makes the older
  value 1 pending again, while \<open>keysCache\<close> holds 9, and it sets no timer: the entries
  wait for the timer of a later \<open>keys.set\<close>.  When \<open>session:a\<close> is set and that timer
  fires, the third request sends \<open>pre-key:1 = 1\<close>, after the 9 of the second.
\<close>

theorem stale_value_after_failed_flush:
  "fst (flush_begin flushing) = Some [(''pre-key:1'', Some (VNum 1)), (''pre-key:2'', None)]
   \<and> pendingKeyUpdates
        (snd (keys_set [(''pre-key'', [(''1'', Some (VNum 9))])] (snd (flush_begin flushing))))
       = [(''pre-key:1'', Some (VNum 9))]
   \<and> patches overlapped
       = [\<lparr>set_keys = [(''pre-key:1'', VNum 1)], delete_keys = [''pre-key:2'']\<rparr>,
          \<lparr>set_keys = [(''pre-key:1'', VNum 9)], delete_keys = []\<rparr>]
   \<and> pendingKeyUpdates overlapped = []
   \<and> pendingKeyUpdates
        (flush_failed [(''pre-key:1'', Some (VNum 1)), (''pre-key:2'', None)] overlapped)
       = [(''pre-key:1'', Some (VNum 1)), (''pre-key:2'', None)]
   \<and> keysCache
        (flush_failed [(''pre-key:1'', Some (VNum 1)), (''pre-key:2'', None)] overlapped)
       = [(''pre-key:1'', VNum 9)]
   \<and> live_timers
        (flush_failed [(''pre-key:1'', Some (VNum 1)), (''pre-key:2'', None)] overlapped)
       = []
   \<and> patches
        (snd (fire_timer 1
           (snd (keys_set [(''session'', [(''a'', Some (VNum 5))])]
              (flush_failed [(''pre-key:1'', Some (VNum 1)), (''pre-key:2'', None)]
                 overlapped)))))
       = [\<lparr>set_keys = [(''pre-key:1'', VNum 1)], delete_keys = [''pre-key:2'']\<rparr>,
          \<lparr>set_keys = [(''pre-key:1'', VNum 9)], delete_keys = []\<rparr>,
          \<lparr>set_keys = [(''pre-key:1'', VNum 1), (''session:a'', VNum 5)],
            delete_keys = [''pre-key:2'']\<rparr>]"
  by (simp add: overlapped_def flushing_def new_authstate_def flush_begin_def keys_set_def
      scheduleKeySync_def fire_timer_def flush_failed_def spread_def replacer_def Let_def
      List.map_filter_def)

section \<open>Properties of the codec\<close>

subsection \<open>Base64\<close>

lemma index_of_nth:
  assumes "distinct xs" and "i < length xs"
  shows "index_of (xs ! i) xs = Some i"
  using assms
proof (induction xs arbitrary: i)
  case Nil
  then show ?case by simp
next
  case (Cons x xs)
  show ?case
  proof (cases i)
    case 0
    then show ?thesis by simp
  next
    case (Suc j)
    then have "xs ! j \<in> set xs" using Cons.prems(2) by simp
    then have "xs ! j \<noteq> x" using Cons.prems(1) by auto
    then show ?thesis using Cons Suc by simp
  qed
qed

lemma b64chars_distinct: "distinct b64chars"
  by (simp add: b64chars_def)

lemma b64chars_length: "length b64chars = 64"
  by (simp add: b64chars_def)

lemma b64chars_special:
  "CHR ''='' \<notin> set b64chars" "CHR ''-'' \<notin> set b64chars" "CHR ''_'' \<notin> set b64chars"
  by (simp_all add: b64chars_def)

lemma b64char_in:
  assumes "i < 64"
  shows "b64char i \<in> set b64chars"
  using assms by (simp add: b64char_def b64chars_length)

lemma b64index_b64char:
  assumes "i < 64"
  shows "b64index (b64char i) = Some i"
proof -
  have "b64char i \<noteq> CHR ''-''" "b64char i \<noteq> CHR ''_''"
    using b64char_in [OF assms] b64chars_special by auto
  then show ?thesis
    using index_of_nth [OF b64chars_distinct, of i] assms
    by (simp add: b64index_def b64char_def b64chars_length)
qed

lemma b64char_not_pad:
  assumes "i < 64"
  shows "b64char i \<noteq> CHR ''=''"
  using b64char_in [OF assms] b64chars_special by auto

lemma sextets_Cons:
  assumes "i < 64"
  shows "sextets (b64char i # s) = i # sextets s"
  using b64index_b64char [OF assms] b64char_not_pad [OF assms]
  by (simp add: sextets_def List.map_filter_simps)

lemma sextets_pad: "sextets (CHR ''='' # s) = []"
  by (simp add: sextets_def)

lemma sextets_Nil: "sextets [] = []"
  by (simp add: sextets_def)

lemma byte_parts:
  fixes a b c :: nat
  assumes "a < 256" and "b < 256" and "c < 256"
  shows "a div 4 * 4 + (a mod 4 * 16 + b div 16) div 16 = a"
    and "(a mod 4 * 16 + b div 16) mod 16 * 16 + (b mod 16 * 4 + c div 64) div 4 = b"
    and "(b mod 16 * 4 + c div 64) mod 4 * 64 + c mod 64 = c"
    and "a div 4 * 4 + (a mod 4 * 16) div 16 = a"
    and "(a mod 4 * 16 + b div 16) mod 16 * 16 + (b mod 16 * 4) div 4 = b"
    and "a div 4 < 64" and "a mod 4 * 16 + b div 16 < 64" and "b mod 16 * 4 + c div 64 < 64"
    and "c mod 64 < 64" and "a mod 4 * 16 < 64" and "b mod 16 * 4 < 64"
  using assms by simp_all

lemma unat_byte: "unat (a :: byte) < 256"
  using unsigned_less [of a, where ?'a = nat] by simp

lemma of_nat_byte:
  assumes "n = unat (a :: byte)"
  shows "of_nat n = a"
  using assms by simp

lemma base64_roundtrip: "fromSextets (sextets (toBase64 bs)) = bs"
proof (induction bs rule: toBase64.induct)
  case 1
  then show ?case by (simp add: sextets_Nil)
next
  case (2 a)
  note p = byte_parts [OF unat_byte [of a] unat_byte [of a] unat_byte [of a]]
  have s: "sextets (toBase64 [a]) = [unat a div 4, unat a mod 4 * 16]"
    by (simp only: toBase64.simps sextets_Cons [OF p(6)] sextets_Cons [OF p(10)] sextets_pad)
  show ?case
    unfolding s by (simp only: fromSextets.simps of_nat_byte [OF p(4)])
next
  case (3 a b)
  note p = byte_parts [OF unat_byte [of a] unat_byte [of b] unat_byte [of b]]
  have s: "sextets (toBase64 [a, b])
             = [unat a div 4, unat a mod 4 * 16 + unat b div 16, unat b mod 16 * 4]"
    by (simp only: toBase64.simps sextets_Cons [OF p(6)] sextets_Cons [OF p(7)]
        sextets_Cons [OF p(11)] sextets_pad)
  show ?case
    unfolding s by (simp only: fromSextets.simps of_nat_byte [OF p(1)] of_nat_byte [OF p(5)])
next
  case (4 a b c bs)
  note p = byte_parts [OF unat_byte [of a] unat_byte [of b] unat_byte [of c]]
  have s: "sextets (toBase64 (a # b # c # bs))
             = unat a div 4 # (unat a mod 4 * 16 + unat b div 16)
               # (unat b mod 16 * 4 + unat c div 64) # unat c mod 64 # sextets (toBase64 bs)"
    by (simp only: toBase64.simps append_Cons append_Nil sextets_Cons [OF p(6)]
        sextets_Cons [OF p(7)] sextets_Cons [OF p(8)] sextets_Cons [OF p(9)])
  show ?case
    unfolding s
    by (simp only: fromSextets.simps append_Cons append_Nil "4.IH" of_nat_byte [OF p(1)]
        of_nat_byte [OF p(2)] of_nat_byte [OF p(3)])
qed

lemma fromBase64_toBase64: "fromBase64 (toBase64 bs) = bs"
  using base64_roundtrip [of bs] by (simp add: fromBase64_def sextets_def)

lemma toBase64_nonempty:
  assumes "bs \<noteq> []"
  shows "toBase64 bs \<noteq> []"
  using assms by (cases bs rule: toBase64.cases) simp_all

subsection \<open>Round trip\<close>

lemma num_bytes: "list_all is_num (map (\<lambda>b. VNum (uint b)) bs)
                  \<and> map num_byte (map (\<lambda>b. VNum (uint b)) bs) = bs"
  by (induction bs) simp_all

lemma serialize_buffer: "serializeData (VBuf bs) = Inr (tagged (VStr (toBase64 bs)))"
  using num_bytes [of bs] by (simp add: replacer_def tagged_def)

lemma deserialize_tagged:
  "deserializeData (tagged (VStr s))
     = (if s = [] then Inr (tagged (VStr s)) else Inr (VBuf (fromBase64 s)))"
  by (simp add: tagged_def reviver_def)

lemma roundtrip_buffer:
  assumes "bs \<noteq> []"
  shows "roundtrip (VBuf bs) = Inr (VBuf bs)"
  using toBase64_nonempty [OF assms]
  by (simp add: roundtrip_def serialize_buffer deserialize_tagged fromBase64_toBase64
      del: serializeData.simps deserializeData.simps)

lemma sequence_roundtrip:
  assumes "\<forall>x \<in> set xs. \<exists>y. f x = Inr y \<and> g y = Inr x"
  shows "\<exists>ys. sequence_sum (map f xs) = Inr ys \<and> sequence_sum (map g ys) = Inr xs"
  using assms
proof (induction xs)
  case Nil
  then show ?case by simp
next
  case (Cons x xs)
  obtain y where y: "f x = Inr y" "g y = Inr x"
    using Cons.prems by auto
  obtain ys where ys: "sequence_sum (map f xs) = Inr ys" "sequence_sum (map g ys) = Inr xs"
    using Cons by auto
  have "sequence_sum (map f (x # xs)) = Inr (y # ys)"
       "sequence_sum (map g (y # ys)) = Inr (x # xs)"
    by (simp_all add: y ys)
  then show ?case by blast
qed

lemma buffer_roundtrip_ex:
  assumes "plain (VBuf bs)"
  shows "\<exists>y. serializeData (VBuf bs) = Inr y \<and> deserializeData y = Inr (VBuf bs)"
proof -
  have ne: "bs \<noteq> []"
    using assms by simp
  show ?thesis
    using toBase64_nonempty [OF ne]
    by (simp add: serialize_buffer deserialize_tagged fromBase64_toBase64
        del: serializeData.simps deserializeData.simps)
qed

lemma roundtrip_plain_ex:
  assumes "plain v"
  shows "\<exists>y. serializeData v = Inr y \<and> deserializeData y = Inr v"
  using assms
proof (induction v rule: serializeData.induct)
  case (1 xs)
  have "\<forall>x \<in> set xs. \<exists>y. serializeData x = Inr y \<and> deserializeData y = Inr x"
    using 1 by (simp add: list_all_iff)
  then obtain ys where ys: "sequence_sum (map serializeData xs) = Inr ys"
      "sequence_sum (map deserializeData ys) = Inr xs"
    using sequence_roundtrip by blast
  then show ?case by simp
next
  case (2 kvs)
  have nt: "map_of kvs ''type'' \<noteq> Some (VStr ''Buffer'')"
    using "2.prems" by simp
  have "\<forall>x \<in> set kvs. \<exists>y.
          (\<lambda>(k, v). map_sum id (Pair k) (serializeData v)) x = Inr y
          \<and> (\<lambda>(k, v). map_sum id (Pair k) (deserializeData v)) y = Inr x"
  proof
    fix x assume x: "x \<in> set kvs"
    obtain k v where kv: "x = (k, v)" by (cases x)
    have "plain v" using "2.prems" x kv by (auto simp: list_all_iff)
    then obtain y where "serializeData v = Inr y" "deserializeData y = Inr v"
      using "2.IH" [OF nt x kv [symmetric]] by blast
    then have "(\<lambda>(k, v). map_sum id (Pair k) (serializeData v)) x = Inr (k, y)
          \<and> (\<lambda>(k, v). map_sum id (Pair k) (deserializeData v)) (k, y) = Inr x"
      by (simp add: kv)
    then show "\<exists>y. (\<lambda>(k, v). map_sum id (Pair k) (serializeData v)) x = Inr y
          \<and> (\<lambda>(k, v). map_sum id (Pair k) (deserializeData v)) y = Inr x"
      by blast
  qed
  then obtain ys where ys:
      "sequence_sum (map (\<lambda>(k, v). map_sum id (Pair k) (serializeData v)) kvs) = Inr ys"
      "sequence_sum (map (\<lambda>(k, v). map_sum id (Pair k) (deserializeData v)) ys) = Inr kvs"
    using sequence_roundtrip by blast
  have rv: "reviver (VObj kvs) = Inr (VObj kvs)"
    using nt by (simp add: reviver_def split: option.splits)
  show ?case
    using nt ys rv by simp
next
  case "3_1"
  then show ?case by (simp add: replacer_def)
next
  case "3_2"
  then show ?case by (simp add: replacer_def)
next
  case "3_3"
  then show ?case by (simp add: replacer_def)
next
  case "3_4"
  then show ?case by (simp add: replacer_def)
next
  case "3_5"
  then show ?case by (rule buffer_roundtrip_ex)
qed

text \<open>
  On every other byte sequence, and on data built from such sequences, the round trip
  is the identity.
\<close>

lemma roundtrip_plain:
  assumes "plain v"
  shows "roundtrip v = Inr v"
  using roundtrip_plain_ex [OF assms] by (auto simp: roundtrip_def)

text \<open>
  C1 on the code.  The empty byte sequence is encoded as
  \<open>{ type: 'Buffer', data: '' }\<close>.  The reviver asks for a truthy \<open>value.data\<close>, the
  empty string is not, and the object is returned as it is: decoding the encoded
  empty byte sequence gives that object and not the bytes.  Encoding what was decoded
  then throws, since \<open>Buffer.from\<close> is given the object itself.
\<close>

theorem empty_buffer_not_restored:
  "serializeData (VBuf []) = Inr (VObj [(''type'', VStr ''Buffer''), (''data'', VStr [])])
   \<and> deserializeData (VObj [(''type'', VStr ''Buffer''), (''data'', VStr [])])
       = Inr (VObj [(''type'', VStr ''Buffer''), (''data'', VStr [])])
   \<and> roundtrip (VBuf []) = Inr (VObj [(''type'', VStr ''Buffer''), (''data'', VStr [])])
   \<and> roundtrip (VBuf []) \<noteq> Inr (VBuf [])
   \<and> serializeData (VObj [(''type'', VStr ''Buffer''), (''data'', VStr [])]) = Inl TypeError"
  by (simp add: roundtrip_def replacer_def reviver_def tagged_def)

end

